theory Spec2Isabelle
  imports Main "HOL-Library.Multiset"
begin

section \<open>Problem data (\<^verbatim>\<open>examples/python/cvrp.py\<close>, class \<^verbatim>\<open>DataProblem\<close>)\<close>

text \<open>
  Python exceptions that the modelled code can raise are values of \<open>py_error\<close>; a
  function that can raise returns \<open>py_error + 'a\<close>.
\<close>

datatype py_error = KeyError | IndexError

text \<open>
  The attributes that the rest of the program reads from a \<^verbatim>\<open>data\<close> object.
  Coordinates are Python integers (\<^verbatim>\<open>228/2\<close> is the integer \<open>114\<close> under the
  integer division this script was written for). Demands and the capacity are the
  Data Model's non-negative integers, which every literal of the source is.
\<close>

record data_problem =
  locations :: "(int \<times> int) list"
  demands :: "nat list"
  capacity :: nat
  num_vehicles :: nat

definition city_block :: "int \<times> int" where
  "city_block = (228 div 2, 80)"

definition DataProblem :: data_problem where
  "DataProblem =
     \<lparr> locations =
         map (\<lambda>loc. (fst loc * fst city_block, snd loc * snd city_block))
           [(4, 4),
            (2, 0), (8, 0),
            (0, 1), (1, 1),
            (5, 2), (7, 2),
            (3, 3), (6, 3),
            (5, 5), (8, 5),
            (1, 6), (2, 6),
            (3, 7), (6, 7),
            (0, 8), (7, 8)],
       demands =
         [0,
          1, 1,
          2, 4,
          2, 4,
          8, 8,
          1, 2,
          1, 2,
          4, 4,
          8, 8],
       capacity = 15,
       num_vehicles = 4 \<rparr>"

definition num_locations :: "data_problem \<Rightarrow> nat" where
  "num_locations data = length (locations data)"

definition depot :: "data_problem \<Rightarrow> nat" where
  "depot data = 0"

section \<open>Problem constraints: the two evaluators\<close>

definition manhattan_distance :: "int \<times> int \<Rightarrow> int \<times> int \<Rightarrow> int" where
  "manhattan_distance position_1 position_2 =
     \<bar>fst position_1 - fst position_2\<bar> + \<bar>snd position_1 - snd position_2\<bar>"

text \<open>
  \<^verbatim>\<open>CreateDistanceEvaluator.__init__\<close> fills a dictionary of dictionaries in two nested
  loops over \<^verbatim>\<open>xrange(data.num_locations)\<close>. \<open>distances_row\<close> is the inner loop for one
  \<^verbatim>\<open>from_node\<close>; the keys are Python integers.
\<close>

definition distances_row :: "data_problem \<Rightarrow> nat \<Rightarrow> (int \<rightharpoonup> int)" where
  "distances_row data from_node =
     fold (\<lambda>to_node row.
             row(int to_node \<mapsto>
               (if from_node = to_node then 0
                else manhattan_distance (locations data ! from_node)
                                        (locations data ! to_node))))
          [0..<num_locations data] Map.empty"

definition CreateDistanceEvaluator :: "data_problem \<Rightarrow> (int \<rightharpoonup> (int \<rightharpoonup> int))" where
  "CreateDistanceEvaluator data =
     fold (\<lambda>from_node distances. distances(int from_node \<mapsto> distances_row data from_node))
          [0..<num_locations data] Map.empty"

text \<open>\<^verbatim>\<open>self._distances[from_node][to_node]\<close>: a missing key raises \<^verbatim>\<open>KeyError\<close>.\<close>

definition distance_evaluator :: "(int \<rightharpoonup> (int \<rightharpoonup> int)) \<Rightarrow> int \<Rightarrow> int \<Rightarrow> py_error + int" where
  "distance_evaluator distances from_node to_node =
     (case distances from_node of
        None \<Rightarrow> Inl KeyError
      | Some row \<Rightarrow> (case row to_node of None \<Rightarrow> Inl KeyError | Some d \<Rightarrow> Inr d))"

definition CreateDemandEvaluator :: "data_problem \<Rightarrow> nat list" where
  "CreateDemandEvaluator data = demands data"

text \<open>
  \<^verbatim>\<open>self._demands[from_node]\<close> is Python list indexing: a negative index counts from
  the end, an index out of range raises \<^verbatim>\<open>IndexError\<close>. \<^verbatim>\<open>to_node\<close> is deleted unread.
\<close>

definition demand_evaluator :: "nat list \<Rightarrow> int \<Rightarrow> int \<Rightarrow> py_error + nat" where
  "demand_evaluator dems from_node to_node =
     (let n = int (length dems);
          j = (if from_node < 0 then n + from_node else from_node)
      in if 0 \<le> j \<and> j < n then Inr (dems ! nat j) else Inl IndexError)"

section \<open>Printer\<close>

text \<open>
  \<^verbatim>\<open>print_solution\<close> reads the solver's objects through a handful of queries. A
  \<open>routing_model\<close> holds the answers of \<^verbatim>\<open>routing.Start\<close>, \<^verbatim>\<open>routing.IsEnd\<close>,
  \<^verbatim>\<open>routing.IndexToNode\<close> and \<^verbatim>\<open>routing.GetArcCostForVehicle\<close>; an \<open>assignment\<close> holds
  \<^verbatim>\<open>assignment.ObjectiveValue()\<close>, \<^verbatim>\<open>assignment.Value(routing.NextVar(index))\<close> and
  \<^verbatim>\<open>assignment.Value(capacity_dimension.CumulVar(index))\<close>.
\<close>

record routing_model =
  Start :: "nat \<Rightarrow> nat"
  IsEnd :: "nat \<Rightarrow> bool"
  IndexToNode :: "nat \<Rightarrow> nat"
  GetArcCostForVehicle :: "nat \<Rightarrow> nat \<Rightarrow> nat \<Rightarrow> int"

record assignment =
  ObjectiveValue :: int
  NextVar :: "nat \<Rightarrow> nat"
  CumulVar :: "nat \<Rightarrow> int"

text \<open>
  What is printed, as the values that are formatted into the text: for each vehicle the
  \<^verbatim>\<open>{node} Load({load})\<close> entries of \<^verbatim>\<open>plan_output\<close>, the distance and the load of
  the route; then the two totals.
\<close>

record route_output =
  plan_output :: "(nat \<times> int) list"
  route_distance :: int
  route_load :: int

record solution_output =
  printed_objective :: int
  printed_routes :: "route_output list"
  printed_total_distance :: int
  printed_total_load :: int

text \<open>
  The \<^verbatim>\<open>while not routing.IsEnd(index)\<close> loop. It follows the successors that the
  assignment gives and need not end on an arbitrary assignment, so its result is an
  option: \<open>None\<close> is the loop that never leaves.
\<close>

partial_function (option) route_loop ::
  "routing_model \<Rightarrow> assignment \<Rightarrow> nat \<Rightarrow> nat \<Rightarrow> (nat \<times> int) list \<Rightarrow> int
     \<Rightarrow> (nat \<times> (nat \<times> int) list \<times> int) option" where
  "route_loop routing asg vehicle_id index plan distance =
     (if \<not> IsEnd routing index then
        (let plan' = plan @ [(IndexToNode routing index, CumulVar asg index)];
             previous_index = index;
             index' = NextVar asg index
         in route_loop routing asg vehicle_id index' plan'
              (distance + GetArcCostForVehicle routing previous_index index' vehicle_id))
      else Some (index, plan, distance))"

declare route_loop.simps [code]

text \<open>The body of the \<^verbatim>\<open>for vehicle_id\<close> loop up to \<^verbatim>\<open>print(plan_output)\<close>.\<close>

definition print_route :: "routing_model \<Rightarrow> assignment \<Rightarrow> nat \<Rightarrow> route_output option" where
  "print_route routing asg vehicle_id =
     (case route_loop routing asg vehicle_id (Start routing vehicle_id) [] 0 of
        None \<Rightarrow> None
      | Some (index, plan, distance) \<Rightarrow>
          Some \<lparr> plan_output = plan @ [(IndexToNode routing index, CumulVar asg index)],
                 route_distance = distance,
                 route_load = CumulVar asg index \<rparr>)"

text \<open>The \<^verbatim>\<open>for vehicle_id in xrange(data.num_vehicles)\<close> loop with its two running totals.\<close>

fun vehicles_loop ::
  "routing_model \<Rightarrow> assignment \<Rightarrow> nat list \<Rightarrow> route_output list \<times> int \<times> int
     \<Rightarrow> (route_output list \<times> int \<times> int) option" where
  "vehicles_loop routing asg [] acc = Some acc"
| "vehicles_loop routing asg (vehicle_id # rest) (outs, total_distance, total_load) =
     (case print_route routing asg vehicle_id of
        None \<Rightarrow> None
      | Some out \<Rightarrow>
          vehicles_loop routing asg rest
            (outs @ [out], total_distance + route_distance out, total_load + route_load out))"

definition print_solution ::
  "data_problem \<Rightarrow> routing_model \<Rightarrow> assignment \<Rightarrow> solution_output option" where
  "print_solution data routing asg =
     (case vehicles_loop routing asg [0..<num_vehicles data] ([], 0, 0) of
        None \<Rightarrow> None
      | Some (outs, total_distance, total_load) \<Rightarrow>
          Some \<lparr> printed_objective = ObjectiveValue asg,
                 printed_routes = outs,
                 printed_total_distance = total_distance,
                 printed_total_load = total_load \<rparr>)"

text \<open>
  A route as the sequence of indices that the assignment chains from an index up to an
  end index: \<open>follows routing asg index path\<close> holds when the successors of \<open>index\<close> are
  the elements of \<open>path\<close> in turn and the last one is the first end index met.
\<close>

fun follows :: "routing_model \<Rightarrow> assignment \<Rightarrow> nat \<Rightarrow> nat list \<Rightarrow> bool" where
  "follows routing asg index [] \<longleftrightarrow> IsEnd routing index"
| "follows routing asg index (nxt # rest) \<longleftrightarrow>
     \<not> IsEnd routing index \<and> NextVar asg index = nxt \<and> follows routing asg nxt rest"

text \<open>The consecutive legs of a sequence of stops.\<close>

fun legs :: "'a list \<Rightarrow> ('a \<times> 'a) list" where
  "legs (a # b # rest) = (a, b) # legs (b # rest)"
| "legs _ = []"

text \<open>
  The length of a node sequence recomputed from the cost oracle alone: the sum of
  \<open>distance_evaluator\<close> over its consecutive legs; a failing lookup fails the sum.
\<close>

fun route_cost :: "(int \<rightharpoonup> (int \<rightharpoonup> int)) \<Rightarrow> nat list \<Rightarrow> py_error + int" where
  "route_cost distances (a # b # rest) =
     (case distance_evaluator distances (int a) (int b) of
        Inl e \<Rightarrow> Inl e
      | Inr d \<Rightarrow> (case route_cost distances (b # rest) of
                    Inl e \<Rightarrow> Inl e
                  | Inr c \<Rightarrow> Inr (d + c)))"
| "route_cost distances _ = Inr 0"

text \<open>The nodes of a vehicle's route, read off the indices of its chain.\<close>

definition route_nodes :: "routing_model \<Rightarrow> nat \<Rightarrow> nat list \<Rightarrow> nat list" where
  "route_nodes routing vehicle_id path =
     map (IndexToNode routing) (Start routing vehicle_id # path)"

text \<open>What the reporter prints for a vehicle whose chain of indices is \<open>path\<close>.\<close>

definition route_report :: "routing_model \<Rightarrow> assignment \<Rightarrow> nat \<Rightarrow> nat list \<Rightarrow> route_output" where
  "route_report routing asg vehicle_id path =
     \<lparr> plan_output =
         map (\<lambda>k. (IndexToNode routing k, CumulVar asg k)) (Start routing vehicle_id # path),
       route_distance =
         (\<Sum>(i, j)\<leftarrow>legs (Start routing vehicle_id # path).
            GetArcCostForVehicle routing i j vehicle_id),
       route_load = CumulVar asg (last (Start routing vehicle_id # path)) \<rparr>"

section \<open>The capacity dimension\<close>

text \<open>
  The script declares the dimension in \<^verbatim>\<open>add_capacity_constraints\<close> (the demand
  evaluator, slack \<open>0\<close>, upper bound \<^verbatim>\<open>data.vehicle.capacity\<close>, cumulative value \<open>0\<close> at
  the start, name \<^verbatim>\<open>Capacity\<close>); what the dimension does with the declaration is in the
  routing library, which is not part of the sources at hand.
\<close>

text \<open>
  Modelled from the spec: \<^verbatim>\<open>demand(point_index)\<close> of the Capacity Dimension (section
  4.2), missing with the routing library. It is the value that the registered demand
  evaluator returns for the point.
\<close>

definition demand :: "data_problem \<Rightarrow> nat \<Rightarrow> nat" where
  "demand data point_index = demands data ! point_index"

text \<open>
  Modelled from the spec: \<^verbatim>\<open>cumulative_load_at(route, position)\<close> of the Capacity
  Dimension (section 4.2), missing with the routing library: the running total load from
  the route start through that position inclusive.
\<close>

definition cumulative_load_at :: "data_problem \<Rightarrow> nat list \<Rightarrow> nat \<Rightarrow> nat" where
  "cumulative_load_at data route position =
     sum_list (map (demand data) (take (Suc position) route))"

text \<open>
  Modelled from the spec: \<^verbatim>\<open>current_cumulative_load(route)\<close> of the Capacity Dimension
  (section 4.2), missing with the routing library: the load of the whole route.
\<close>

definition current_cumulative_load :: "data_problem \<Rightarrow> nat list \<Rightarrow> nat" where
  "current_cumulative_load data route = sum_list (map (demand data) route)"

text \<open>
  Modelled from the spec: \<^verbatim>\<open>can_append(route, candidate_point)\<close> of the Capacity
  Dimension (section 4.2), missing with the routing library: true iff
  \<^verbatim>\<open>current_cumulative_load(route) + demand(candidate_point) <= capacity\<close>.
\<close>

definition can_append :: "data_problem \<Rightarrow> nat list \<Rightarrow> nat \<Rightarrow> bool" where
  "can_append data route candidate_point \<longleftrightarrow>
     current_cumulative_load data route + demand data candidate_point \<le> capacity data"


section \<open>The route constructor\<close>

text \<open>
  The script only selects the construction heuristic (\<^verbatim>\<open>first_solution_strategy\<close>) and
  calls \<^verbatim>\<open>routing.SolveWithParameters\<close> in \<^verbatim>\<open>main\<close>; the construction itself is in the
  routing library, which is not part of the sources at hand. Every definition of this
  section follows the Route Constructor of the spec (section 4.3) and its errors (section
  7).
\<close>

text \<open>
  Modelled from the spec: the two errors of the Route Constructor (section 7), missing
  with the routing library. ConstructionInfeasible carries the offending unrouted points.
\<close>

datatype construction_error = InvalidInstance | ConstructionInfeasible "nat list"

text \<open>
  Modelled from the spec: the working state of the Route Constructor (section 4.3, steps
  1 and 2), missing with the routing library: one route per vehicle, each a sequence of
  point indices that begins and ends at the depot, and the points not yet routed.
\<close>

record construction_state =
  routes :: "nat list list"
  unrouted :: "nat list"

text \<open>
  Modelled from the spec: the insertion of step 3c, missing with the routing library:
  \<open>p\<close> goes between the adjacent positions \<open>i\<close> and \<open>i + 1\<close> of the route.
\<close>

definition insert_at :: "nat list \<Rightarrow> nat \<Rightarrow> nat \<Rightarrow> nat list" where
  "insert_at route i p = take (Suc i) route @ p # drop (Suc i) route"

text \<open>
  Modelled from the spec: feasibility of an insertion under the Capacity Dimension (step
  3a), missing with the routing library: \<open>can_append\<close> evaluated with the route's load
  state truncated at the insertion point.
\<close>

definition feasible_insertion :: "data_problem \<Rightarrow> nat list \<Rightarrow> nat \<Rightarrow> nat \<Rightarrow> bool" where
  "feasible_insertion data route i p \<longleftrightarrow> can_append data (take (Suc i) route) p"

text \<open>
  Modelled from the spec: the query \<^verbatim>\<open>distance(from_index, to_index)\<close> of the Cost
  Oracle as the Route Constructor makes it (section 4.1); the caller of the evaluator is
  missing with the routing library. The value is the one \<open>distance_evaluator\<close> returns;
  the constructor only asks for indices of the instance, where the lookup does not fail.
\<close>

definition oracle_distance :: "(int \<rightharpoonup> (int \<rightharpoonup> int)) \<Rightarrow> nat \<Rightarrow> nat \<Rightarrow> int" where
  "oracle_distance distances from_index to_index =
     (case distance_evaluator distances (int from_index) (int to_index) of
        Inr d \<Rightarrow> d
      | Inl e \<Rightarrow> 0)"

text \<open>
  Modelled from the spec: the marginal cost of step 3a, missing with the routing library:
  \<^verbatim>\<open>distance(r[i], p) + distance(p, r[i+1]) - distance(r[i], r[i+1])\<close>.
\<close>

definition marginal_cost :: "(int \<rightharpoonup> (int \<rightharpoonup> int)) \<Rightarrow> nat list \<Rightarrow> nat \<Rightarrow> nat \<Rightarrow> int" where
  "marginal_cost distances r i p =
     oracle_distance distances (r ! i) p + oracle_distance distances p (r ! Suc i)
       - oracle_distance distances (r ! i) (r ! Suc i)"

text \<open>
  Modelled from the spec: the candidates of step 3a, missing with the routing library: a
  marginal cost with its triple (point, route, position), for every unrouted point,
  every route and every adjacent pair of positions of the route where the insertion is
  feasible.
\<close>

type_synonym candidate = "int \<times> nat \<times> nat \<times> nat"

definition candidates ::
  "data_problem \<Rightarrow> (int \<rightharpoonup> (int \<rightharpoonup> int)) \<Rightarrow> construction_state \<Rightarrow> candidate list" where
  "candidates data distances s =
     [(marginal_cost distances (routes s ! r) i p, p, r, i).
        p \<leftarrow> unrouted s,
        r \<leftarrow> [0..<length (routes s)],
        i \<leftarrow> [0..<length (routes s ! r) - 1],
        feasible_insertion data (routes s ! r) i p]"

text \<open>
  Modelled from the spec: the order of step 3b, missing with the routing library:
  minimum marginal cost; ties broken by lowest point index, then lowest route index, then
  lowest position index.
\<close>

fun better :: "candidate \<Rightarrow> candidate \<Rightarrow> bool" where
  "better (c1, p1, r1, i1) (c2, p2, r2, i2) \<longleftrightarrow>
     c1 < c2 \<or> (c1 = c2 \<and> (p1 < p2 \<or> (p1 = p2 \<and> (r1 < r2 \<or> (r1 = r2 \<and> i1 < i2)))))"

text \<open>
  Modelled from the spec: the selection of step 3b, missing with the routing library: the
  best candidate of a list, none for the empty list.
\<close>

fun select_best :: "candidate list \<Rightarrow> candidate option" where
  "select_best [] = None"
| "select_best (c # cs) =
     (case select_best cs of
        None \<Rightarrow> Some c
      | Some b \<Rightarrow> if better b c then Some b else Some c)"

text \<open>
  Modelled from the spec: the selection rule of step 3b as a relation, missing with the
  routing library: a candidate is selected when it is among the candidates and is better
  than every other one, whatever the order in which the candidates are enumerated.
\<close>

definition selected :: "candidate list \<Rightarrow> candidate \<Rightarrow> bool" where
  "selected cs c \<longleftrightarrow> c \<in> set cs \<and> (\<forall>c' \<in> set cs. c' = c \<or> better c c')"

text \<open>
  Modelled from the spec: step 3c, missing with the routing library: insert the point at
  the position, remove it from the unrouted points.
\<close>

fun insert_point :: "candidate \<Rightarrow> construction_state \<Rightarrow> construction_state" where
  "insert_point (cost, p, r, i) s =
     \<lparr> routes = (routes s)[r := insert_at (routes s ! r) i p],
       unrouted = removeAll p (unrouted s) \<rparr>"

text \<open>
  Modelled from the spec: steps 1 and 2, missing with the routing library: one empty
  route \<open>[depot, depot]\<close> per vehicle, all of \<open>1..N-1\<close> unrouted.
\<close>

definition initial_state :: "data_problem \<Rightarrow> construction_state" where
  "initial_state data =
     \<lparr> routes = replicate (num_vehicles data) [depot data, depot data],
       unrouted = [1..<num_locations data] \<rparr>"

text \<open>
  Modelled from the spec: the InvalidInstance condition of section 7, detected at
  construction entry and missing with the routing library: an index out of range for the
  cost oracle or the capacity dimension (no depot point, or demands that are not aligned
  one to one with the locations), a depot demand that is not zero, or a point whose
  demand exceeds the vehicle capacity.
\<close>

definition invalid_instance :: "data_problem \<Rightarrow> bool" where
  "invalid_instance data \<longleftrightarrow>
     num_locations data = 0
     \<or> length (demands data) \<noteq> num_locations data
     \<or> demand data (depot data) \<noteq> 0
     \<or> list_ex (\<lambda>d. capacity data < d) (demands data)"

text \<open>
  Modelled from the spec: the states that a construction passes through, missing with
  the routing library: none on an invalid instance, otherwise the initial state and every
  state that follows one by the insertion of the selected candidate (steps 3a to 3c).
\<close>

inductive reached :: "data_problem \<Rightarrow> construction_state \<Rightarrow> bool" for data where
  start: "\<not> invalid_instance data \<Longrightarrow> reached data (initial_state data)"
| step: "reached data s \<Longrightarrow> unrouted s \<noteq> [] \<Longrightarrow>
         select_best (candidates data (CreateDistanceEvaluator data) s) = Some c \<Longrightarrow>
         reached data (insert_point c s)"

code_pred reached .

text \<open>
  Modelled from the spec: the runs that the algorithm of section 4.3 permits from a
  state, missing with the routing library: stop with the routes when nothing is unrouted
  (step 4), fail when no insertion is feasible (step 3d), otherwise insert a selected
  candidate and go on (steps 3a to 3c).
\<close>

inductive run ::
  "data_problem \<Rightarrow> construction_state \<Rightarrow> construction_error + nat list list \<Rightarrow> bool"
  for data where
  finished: "unrouted s = [] \<Longrightarrow> run data s (Inr (routes s))"
| infeasible: "unrouted s \<noteq> [] \<Longrightarrow>
               set (candidates data (CreateDistanceEvaluator data) s) = {} \<Longrightarrow>
               run data s (Inl (ConstructionInfeasible (unrouted s)))"
| insertion: "unrouted s \<noteq> [] \<Longrightarrow>
              selected (candidates data (CreateDistanceEvaluator data) s) c \<Longrightarrow>
              run data (insert_point c s) result \<Longrightarrow>
              run data s result"

code_pred run .

text \<open>
  Modelled from the spec: the results that the Route Constructor may return on an
  instance, missing with the routing library: InvalidInstance at entry, otherwise the
  result of a run from the initial state.
\<close>

definition constructs :: "data_problem \<Rightarrow> construction_error + nat list list \<Rightarrow> bool" where
  "constructs data result \<longleftrightarrow>
     (if invalid_instance data then result = Inl InvalidInstance
      else run data (initial_state data) result)"

text \<open>The non-depot stops of a set of routes, in order of visit.\<close>

definition visits :: "nat list list \<Rightarrow> nat list" where
  "visits solution = filter (\<lambda>p. p \<noteq> 0) (concat solution)"

text \<open>
  The invariant of the construction: the unrouted points and the non-depot stops of the
  routes together are the points \<open>1..N-1\<close>, each once, and there is one route per vehicle.
\<close>

definition routing_invariant :: "data_problem \<Rightarrow> construction_state \<Rightarrow> bool" where
  "routing_invariant data s \<longleftrightarrow>
     distinct (unrouted s)
     \<and> mset (unrouted s) + mset (visits (routes s)) = mset [1..<num_locations data]
     \<and> length (routes s) = num_vehicles data"


lemma select_best_mem: "select_best cs = Some c \<Longrightarrow> c \<in> set cs"
  by (induction cs arbitrary: c) (auto split: option.splits if_splits)

lemma candidates_unrouted:
  "(cost, p, r, i) \<in> set (candidates data distances s) \<Longrightarrow> p \<in> set (unrouted s)"
  by (auto simp add: candidates_def)

text \<open>
  Modelled from the spec: the loop of steps 3 and 4, missing with the routing library:
  while unrouted points remain, insert the selected candidate; with no feasible insertion
  left for any remaining point the construction fails and names the points still
  unrouted (step 3d). Every pass routes one more point, so the loop ends.
\<close>

function insertion_loop ::
  "data_problem \<Rightarrow> (int \<rightharpoonup> (int \<rightharpoonup> int)) \<Rightarrow> construction_state
     \<Rightarrow> construction_error + nat list list" where
  "insertion_loop data distances s =
     (if unrouted s = [] then Inr (routes s)
      else (case select_best (candidates data distances s) of
              None \<Rightarrow> Inl (ConstructionInfeasible (unrouted s))
            | Some c \<Rightarrow> insertion_loop data distances (insert_point c s)))"
  by pat_completeness auto
termination
proof (relation "measure (\<lambda>(data, distances, s). length (unrouted s))")
  show "wf (measure (\<lambda>(data, distances, s). length (unrouted s)))" by simp
next
  fix data distances s c
  assume "unrouted s \<noteq> []" and sel: "select_best (candidates data distances s) = Some c"
  obtain cost p r i where c: "c = (cost, p, r, i)" by (cases c) auto
  from select_best_mem [OF sel] c have "p \<in> set (unrouted s)"
    by (auto dest: candidates_unrouted)
  then have "length (removeAll p (unrouted s)) < length (unrouted s)"
    by (rule length_removeAll_less)
  then show "((data, distances, insert_point c s), (data, distances, s))
               \<in> measure (\<lambda>(data, distances, s). length (unrouted s))"
    by (simp add: c)
qed

declare insertion_loop.simps [simp del]

text \<open>
  Modelled from the spec: the Route Constructor (section 4.3 with the fail-fast check of
  section 7), missing with the routing library: InvalidInstance before anything else,
  otherwise the insertion loop from the initial state with the cost oracle of the script.
\<close>

definition construct :: "data_problem \<Rightarrow> construction_error + nat list list" where
  "construct data =
     (if invalid_instance data then Inl InvalidInstance
      else insertion_loop data (CreateDistanceEvaluator data) (initial_state data))"

section \<open>Instances and solver objects used as examples\<close>

text \<open>
  Three locations and two vehicles, with the indices as the routing library numbers
  them: the nodes keep their numbers, the second vehicle starts at index \<open>3\<close>, and the
  two routes end at the indices \<open>4\<close> and \<open>5\<close>. Vehicle \<open>0\<close> visits both orders, vehicle
  \<open>1\<close> stays at the depot.
\<close>

definition tiny :: data_problem where
  "tiny = \<lparr> locations = [(0, 0), (1, 0), (2, 0)], demands = [0, 8, 8],
            capacity = 16, num_vehicles = 2 \<rparr>"

definition tiny_routing :: routing_model where
  "tiny_routing =
     \<lparr> Start = (\<lambda>v. if v = 0 then 0 else 3),
       IsEnd = (\<lambda>i. 4 \<le> i),
       IndexToNode = (\<lambda>i. if i < 3 then i else 0),
       GetArcCostForVehicle = (\<lambda>i j v.
         (case distance_evaluator (CreateDistanceEvaluator tiny)
                 (int (if i < 3 then i else 0)) (int (if j < 3 then j else 0)) of
            Inr d \<Rightarrow> d
          | Inl e \<Rightarrow> 0)) \<rparr>"

definition tiny_assignment :: assignment where
  "tiny_assignment =
     \<lparr> ObjectiveValue = 4,
       NextVar = (\<lambda>i. if i = 0 then 1 else if i = 1 then 2 else if i = 2 then 4 else 5),
       CumulVar = (\<lambda>i. if i = 2 then 8 else if i = 4 then 16 else 0) \<rparr>"

definition tiny_paths :: "nat list list" where
  "tiny_paths = [[1, 2, 4], [5]]"

text \<open>The scenario of the spec: capacity \<open>5\<close>, one point with demand \<open>10\<close>.\<close>

definition oversized :: data_problem where
  "oversized = \<lparr> locations = [(0, 0), (1, 0)], demands = [0, 10], capacity = 5,
                  num_vehicles = 1 \<rparr>"



text \<open>
  The scenario of the spec: depot and four points of demand \<open>1\<close>, capacity \<open>2\<close>, two
  vehicles.
\<close>

definition scenario :: data_problem where
  "scenario = \<lparr> locations = [(0, 0), (1, 0), (2, 0), (0, 1), (0, 2)],
                 demands = [0, 1, 1, 1, 1], capacity = 2, num_vehicles = 2 \<rparr>"

section \<open>The cost oracle\<close>

lemma distances_row_fold:
  "fold (\<lambda>to_node row. row(int to_node \<mapsto> f to_node)) xs m (int j) =
     (if j \<in> set xs then Some (f j) else m (int j))"
  by (induction xs arbitrary: m) auto

lemma distances_row_lookup:
  "distances_row data i (int j) =
     (if j < num_locations data
      then Some (if i = j then 0
                 else manhattan_distance (locations data ! i) (locations data ! j))
      else None)"
  unfolding distances_row_def by (simp add: distances_row_fold)

lemma distances_fold:
  "fold (\<lambda>from_node d. d(int from_node \<mapsto> g from_node)) xs m (int i) =
     (if i \<in> set xs then Some (g i) else m (int i))"
  by (induction xs arbitrary: m) auto

lemma CreateDistanceEvaluator_lookup:
  "CreateDistanceEvaluator data (int i) =
     (if i < num_locations data then Some (distances_row data i) else None)"
  unfolding CreateDistanceEvaluator_def by (simp add: distances_fold)

lemma distance_evaluator_in_range:
  assumes "i < num_locations data" and "j < num_locations data"
  shows "distance_evaluator (CreateDistanceEvaluator data) (int i) (int j) =
           Inr (if i = j then 0
                else manhattan_distance (locations data ! i) (locations data ! j))"
  using assms
  by (simp add: distance_evaluator_def CreateDistanceEvaluator_lookup distances_row_lookup)

lemma manhattan_distance_self: "manhattan_distance p p = 0"
  by (simp add: manhattan_distance_def)

lemma manhattan_distance_commute: "manhattan_distance p q = manhattan_distance q p"
  by (simp add: manhattan_distance_def abs_minus_commute)

lemma DataProblem_num_locations: "num_locations DataProblem = 17"
  by (simp add: num_locations_def DataProblem_def)

text \<open>
  C3. For all indices \<open>i\<close>, \<open>j\<close> below the number of locations, the cached value that
  \<open>distance_evaluator\<close> returns is the Manhattan distance recomputed from the two
  coordinates, and the value cached on the diagonal is \<open>0\<close>; the diagonal entry is
  written by the branch \<^verbatim>\<open>from_node == to_node\<close>, which never consults the metric.
\<close>

theorem distance_evaluator_is_manhattan:
  assumes "i < num_locations data" and "j < num_locations data"
  shows "distance_evaluator (CreateDistanceEvaluator data) (int i) (int j) =
           Inr (manhattan_distance (locations data ! i) (locations data ! j))
         \<and> distance_evaluator (CreateDistanceEvaluator data) (int i) (int i) = Inr 0"
  using assms by (simp add: distance_evaluator_in_range manhattan_distance_self)

theorem distance_evaluator_is_manhattan_witness:
  "(3::nat) < num_locations DataProblem \<and> (8::nat) < num_locations DataProblem
   \<and> distance_evaluator (CreateDistanceEvaluator DataProblem) 3 8 = Inr 844
   \<and> manhattan_distance (locations DataProblem ! 3) (locations DataProblem ! 8) = 844
   \<and> distance_evaluator (CreateDistanceEvaluator DataProblem) 3 3 = Inr 0"
proof -
  have n: "(3::nat) < num_locations DataProblem" "(8::nat) < num_locations DataProblem"
    by (simp_all add: DataProblem_num_locations)
  have m: "manhattan_distance (locations DataProblem ! 3) (locations DataProblem ! 8) = 844"
    by (simp add: DataProblem_def manhattan_distance_def city_block_def)
  from distance_evaluator_is_manhattan [OF n] m n show ?thesis by simp
qed

text \<open>
  C9. On the indices of the instance the oracle built from the Manhattan metric returns
  a distance in both directions, and the two distances are the same.
\<close>

theorem distance_evaluator_symmetric:
  assumes "i < num_locations data" and "j < num_locations data"
  shows "\<exists>d. distance_evaluator (CreateDistanceEvaluator data) (int i) (int j) = Inr d
             \<and> distance_evaluator (CreateDistanceEvaluator data) (int j) (int i) = Inr d"
  using assms
  by (auto simp add: distance_evaluator_in_range intro: manhattan_distance_commute)

theorem distance_evaluator_symmetric_witness:
  "(1::nat) < num_locations DataProblem \<and> (16::nat) < num_locations DataProblem
   \<and> distance_evaluator (CreateDistanceEvaluator DataProblem) 1 16 = Inr 1210
   \<and> distance_evaluator (CreateDistanceEvaluator DataProblem) 16 1 = Inr 1210"
proof -
  have n: "(1::nat) < num_locations DataProblem" "(16::nat) < num_locations DataProblem"
    by (simp_all add: DataProblem_num_locations)
  have m: "manhattan_distance (locations DataProblem ! 1) (locations DataProblem ! 16) = 1210"
    by (simp add: DataProblem_def manhattan_distance_def city_block_def)
  from distance_evaluator_symmetric [OF n] obtain d
    where d: "distance_evaluator (CreateDistanceEvaluator DataProblem) (int 1) (int 16) = Inr d"
      "distance_evaluator (CreateDistanceEvaluator DataProblem) (int 16) (int 1) = Inr d"
    by blast
  from d(1) distance_evaluator_in_range [OF n] m have "d = 1210" by simp
  with d n show ?thesis by simp
qed

section \<open>The demand evaluator\<close>

text \<open>
  C10. For a \<^verbatim>\<open>from_node\<close> in range the demand evaluator returns the demand stored at
  that index whatever its second argument is; in the instance of the script the depot's
  demand is \<open>0\<close>, the capacity is \<open>15\<close> and no demand exceeds it.
\<close>

theorem demand_evaluator_ignores_to_node:
  "(from_node < length (demands data) \<longrightarrow>
      demand_evaluator (CreateDemandEvaluator data) (int from_node) a =
        demand_evaluator (CreateDemandEvaluator data) (int from_node) b
      \<and> demand_evaluator (CreateDemandEvaluator data) (int from_node) b =
          Inr (demands data ! from_node))
   \<and> length (demands DataProblem) = num_locations DataProblem
   \<and> demand_evaluator (CreateDemandEvaluator DataProblem) 0 a = Inr 0
   \<and> capacity DataProblem = 15
   \<and> list_all (\<lambda>d. d \<le> capacity DataProblem) (demands DataProblem)"
  by (simp add: demand_evaluator_def CreateDemandEvaluator_def DataProblem_def
      num_locations_def)

theorem demand_evaluator_ignores_to_node_witness:
  "(7::nat) < length (demands DataProblem)
   \<and> demand_evaluator (CreateDemandEvaluator DataProblem) 7 2 =
       demand_evaluator (CreateDemandEvaluator DataProblem) 7 5
   \<and> demand_evaluator (CreateDemandEvaluator DataProblem) 7 5 = Inr 8"
proof -
  have n: "(7::nat) < length (demands DataProblem)"
    by (simp add: DataProblem_def)
  have v: "demands DataProblem ! 7 = 8"
    by (simp add: DataProblem_def)
  from demand_evaluator_ignores_to_node [of 7 DataProblem 2 5] n v show ?thesis by simp
qed

text \<open>
  The demand that the capacity dimension reads for a point of the instance is the value
  of the registered demand evaluator.
\<close>

lemma demand_evaluator_demand:
  "p < length (demands data) \<Longrightarrow>
   demand_evaluator (CreateDemandEvaluator data) (int p) to_node = Inr (demand data p)"
  by (simp add: demand_evaluator_def CreateDemandEvaluator_def demand_def)

section \<open>The solution reporter\<close>

lemma route_loop_follows:
  "follows routing asg index path \<Longrightarrow>
   route_loop routing asg vehicle_id index plan distance =
     Some (last (index # path),
           plan @ map (\<lambda>k. (IndexToNode routing k, CumulVar asg k)) (butlast (index # path)),
           distance + (\<Sum>(i, j)\<leftarrow>legs (index # path). GetArcCostForVehicle routing i j vehicle_id))"
proof (induction path arbitrary: index plan distance)
  case Nil
  then show ?case by (subst route_loop.simps) simp
next
  case (Cons nxt rest)
  from Cons.prems have step: "\<not> IsEnd routing index" "NextVar asg index = nxt"
    and rest: "follows routing asg nxt rest" by simp_all
  show ?case
    by (subst route_loop.simps) (simp add: step Cons.IH [OF rest] Let_def)
qed

lemma print_route_follows:
  assumes "follows routing asg (Start routing vehicle_id) path"
  shows "print_route routing asg vehicle_id = Some (route_report routing asg vehicle_id path)"
proof -
  let ?idxs = "Start routing vehicle_id # path"
  have "map (\<lambda>k. (IndexToNode routing k, CumulVar asg k)) (butlast ?idxs)
          @ [(IndexToNode routing (last ?idxs), CumulVar asg (last ?idxs))]
        = map (\<lambda>k. (IndexToNode routing k, CumulVar asg k)) (butlast ?idxs @ [last ?idxs])"
    by simp
  also have "butlast ?idxs @ [last ?idxs] = ?idxs"
    by (rule append_butlast_last_id) simp
  finally show ?thesis
    unfolding print_route_def route_report_def
    by (simp add: route_loop_follows [OF assms])
qed

lemma vehicles_loop_reports:
  assumes "\<And>v. v \<in> set vs \<Longrightarrow> print_route routing asg v = Some (f v)"
  shows "vehicles_loop routing asg vs (outs, total_distance, total_load) =
           Some (outs @ map f vs,
                 total_distance + sum_list (map (\<lambda>v. route_distance (f v)) vs),
                 total_load + sum_list (map (\<lambda>v. route_load (f v)) vs))"
  using assms
  by (induction vs arbitrary: outs total_distance total_load) (simp_all add: algebra_simps)

lemma print_solution_follows:
  assumes "\<And>v. v < num_vehicles data \<Longrightarrow> follows routing asg (Start routing v) (paths ! v)"
  shows "print_solution data routing asg =
           Some \<lparr> printed_objective = ObjectiveValue asg,
                  printed_routes =
                    map (\<lambda>v. route_report routing asg v (paths ! v)) [0..<num_vehicles data],
                  printed_total_distance =
                    (\<Sum>v\<leftarrow>[0..<num_vehicles data].
                       route_distance (route_report routing asg v (paths ! v))),
                  printed_total_load =
                    (\<Sum>v\<leftarrow>[0..<num_vehicles data].
                       route_load (route_report routing asg v (paths ! v))) \<rparr>"
proof -
  let ?f = "\<lambda>v. route_report routing asg v (paths ! v)"
  have "vehicles_loop routing asg [0..<num_vehicles data] ([], 0, 0) =
          Some ([] @ map ?f [0..<num_vehicles data],
                0 + sum_list (map (\<lambda>v. route_distance (?f v)) [0..<num_vehicles data]),
                0 + sum_list (map (\<lambda>v. route_load (?f v)) [0..<num_vehicles data]))"
    by (rule vehicles_loop_reports) (simp add: print_route_follows assms)
  then show ?thesis by (simp add: print_solution_def)
qed

text \<open>
  C6. Whenever every vehicle's chain of successors reaches an end index, the reporter
  returns; the total distance it prints is the sum of the route distances it prints, and
  the total load it prints is the sum of the route loads, each of which is the cumulative
  load at the final index of its route.
\<close>

theorem print_solution_totals:
  assumes "\<And>v. v < num_vehicles data \<Longrightarrow> follows routing asg (Start routing v) (paths ! v)"
  shows "\<exists>out. print_solution data routing asg = Some out
           \<and> length (printed_routes out) = num_vehicles data
           \<and> printed_total_distance out = sum_list (map route_distance (printed_routes out))
           \<and> printed_total_load out = sum_list (map route_load (printed_routes out))
           \<and> map route_load (printed_routes out) =
               map (\<lambda>v. CumulVar asg (last (Start routing v # paths ! v)))
                 [0..<num_vehicles data]"
  by (simp add: print_solution_follows [OF assms] comp_def route_report_def)

lemma tiny_follows:
  "v < num_vehicles tiny \<Longrightarrow>
   follows tiny_routing tiny_assignment (Start tiny_routing v) (tiny_paths ! v)"
  by (auto simp add: tiny_def tiny_routing_def tiny_assignment_def tiny_paths_def
      less_2_cases_iff)

lemma tiny_distance:
  "i < 3 \<Longrightarrow> j < 3 \<Longrightarrow>
   distance_evaluator (CreateDistanceEvaluator tiny) (int i) (int j) =
     Inr (if i = j then 0 else manhattan_distance (locations tiny ! i) (locations tiny ! j))"
  by (rule distance_evaluator_in_range) (simp_all add: num_locations_def tiny_def)

lemma tiny_routing_simps:
  "Start tiny_routing v = (if v = 0 then 0 else 3)"
  "IsEnd tiny_routing i \<longleftrightarrow> 4 \<le> i"
  "IndexToNode tiny_routing i = (if i < 3 then i else 0)"
  "GetArcCostForVehicle tiny_routing i j v =
     (let a = (if i < 3 then i else 0); b = (if j < 3 then j else 0)
      in if a = b then 0 else manhattan_distance (locations tiny ! a) (locations tiny ! b))"
  by (simp_all add: tiny_routing_def tiny_distance Let_def)

lemma tiny_print_solution:
  "print_solution tiny tiny_routing tiny_assignment =
     Some \<lparr> printed_objective = 4,
            printed_routes =
              [\<lparr> plan_output = [(0, 0), (1, 0), (2, 8), (0, 16)],
                 route_distance = 4, route_load = 16 \<rparr>,
               \<lparr> plan_output = [(0, 0), (0, 0)], route_distance = 0, route_load = 0 \<rparr>],
            printed_total_distance = 4,
            printed_total_load = 16 \<rparr>"
proof -
  have r0: "print_route tiny_routing tiny_assignment 0 =
              Some \<lparr> plan_output = [(0, 0), (1, 0), (2, 8), (0, 16)],
                     route_distance = 4, route_load = 16 \<rparr>"
    by (simp add: print_route_def route_loop.simps tiny_routing_simps tiny_assignment_def
        tiny_def manhattan_distance_def)
  have r1: "print_route tiny_routing tiny_assignment (Suc 0) =
              Some \<lparr> plan_output = [(0, 0), (0, 0)], route_distance = 0, route_load = 0 \<rparr>"
    by (simp add: print_route_def route_loop.simps tiny_routing_simps tiny_assignment_def
        tiny_def manhattan_distance_def)
  have "num_vehicles tiny = 2" "ObjectiveValue tiny_assignment = 4"
    by (simp_all add: tiny_def tiny_assignment_def)
  then show ?thesis
    by (simp add: print_solution_def upt_rec r0 r1)
qed

theorem print_solution_totals_witness:
  "follows tiny_routing tiny_assignment (Start tiny_routing 0) (tiny_paths ! 0)
   \<and> follows tiny_routing tiny_assignment (Start tiny_routing 1) (tiny_paths ! 1)
   \<and> (\<exists>out. print_solution tiny tiny_routing tiny_assignment = Some out
         \<and> printed_total_distance out = 4
         \<and> sum_list (map route_distance (printed_routes out)) = 4
         \<and> printed_total_load out = 16
         \<and> sum_list (map route_load (printed_routes out)) = 16
         \<and> map route_load (printed_routes out) = [16, 0])"
proof -
  have two: "num_vehicles tiny = 2" by (simp add: tiny_def)
  from print_solution_totals [of tiny tiny_routing tiny_assignment tiny_paths, OF tiny_follows]
  obtain out where out: "print_solution tiny tiny_routing tiny_assignment = Some out"
    "printed_total_distance out = sum_list (map route_distance (printed_routes out))"
    "printed_total_load out = sum_list (map route_load (printed_routes out))"
    by blast
  from out(1) have "printed_total_distance out = 4" "printed_total_load out = 16"
    "map route_load (printed_routes out) = [16, 0]"
    by (auto simp add: tiny_print_solution)
  with out tiny_follows [of 0] tiny_follows [of 1] two show ?thesis by auto
qed

lemma distance_evaluator_diagonal:
  "distance_evaluator (CreateDistanceEvaluator data) (int i) (int i) = Inr d \<Longrightarrow> d = 0"
  by (auto simp add: distance_evaluator_def CreateDistanceEvaluator_lookup
      distances_row_lookup split: if_splits)

lemma route_cost_arcs:
  "(\<And>i j. (i, j) \<in> set (legs idxs) \<Longrightarrow>
       distance_evaluator distances (int (node i)) (int (node j)) = Inr (arc i j)) \<Longrightarrow>
   route_cost distances (map node idxs) = Inr (\<Sum>(i, j)\<leftarrow>legs idxs. arc i j)"
  by (induction idxs rule: legs.induct) auto

text \<open>
  C7. Take an assignment whose chains all reach an end index, and a vehicle for which the
  routing model's arc costs are the values of the cost oracle at the nodes of the two
  indices (the evaluator that \<^verbatim>\<open>main\<close> registers) and whose final cumulative value is the
  capacity dimension's load of the route, on an instance with depot demand \<open>0\<close>. Then the
  reporter returns, the distance it prints for that vehicle is the sum of the oracle's
  distances over the consecutive legs of the route, the leg into the final depot stop
  included, and a route that is just depot to depot is printed with distance \<open>0\<close> and
  load \<open>0\<close>.
\<close>

theorem print_solution_route_distance:
  assumes paths: "\<And>v. v < num_vehicles data \<Longrightarrow>
                    follows routing asg (Start routing v) (paths ! v)"
    and v: "vehicle_id < num_vehicles data"
    and arcs: "\<And>i j. (i, j) \<in> set (legs (Start routing vehicle_id # paths ! vehicle_id)) \<Longrightarrow>
                 distance_evaluator (CreateDistanceEvaluator data)
                   (int (IndexToNode routing i)) (int (IndexToNode routing j)) =
                 Inr (GetArcCostForVehicle routing i j vehicle_id)"
    and cumul: "CumulVar asg (last (Start routing vehicle_id # paths ! vehicle_id)) =
                  int (cumulative_load_at data
                         (route_nodes routing vehicle_id (paths ! vehicle_id))
                         (length (paths ! vehicle_id)))"
    and depot: "demand data (depot data) = 0"
  shows "\<exists>out. print_solution data routing asg = Some out
           \<and> route_cost (CreateDistanceEvaluator data)
                 (route_nodes routing vehicle_id (paths ! vehicle_id)) =
               Inr (route_distance (printed_routes out ! vehicle_id))
           \<and> (route_nodes routing vehicle_id (paths ! vehicle_id) = [depot data, depot data] \<longrightarrow>
                route_distance (printed_routes out ! vehicle_id) = 0
                \<and> route_load (printed_routes out ! vehicle_id) = 0)"
proof -
  let ?idxs = "Start routing vehicle_id # paths ! vehicle_id"
  let ?nodes = "route_nodes routing vehicle_id (paths ! vehicle_id)"
  let ?rep = "route_report routing asg vehicle_id (paths ! vehicle_id)"
  let ?out = "\<lparr> printed_objective = ObjectiveValue asg,
               printed_routes =
                 map (\<lambda>v. route_report routing asg v (paths ! v)) [0..<num_vehicles data],
               printed_total_distance =
                 (\<Sum>v\<leftarrow>[0..<num_vehicles data].
                    route_distance (route_report routing asg v (paths ! v))),
               printed_total_load =
                 (\<Sum>v\<leftarrow>[0..<num_vehicles data].
                    route_load (route_report routing asg v (paths ! v))) \<rparr>"
  have out: "print_solution data routing asg = Some ?out"
    by (rule print_solution_follows) (rule paths)
  have nth: "printed_routes ?out ! vehicle_id = ?rep"
    using v by simp
  have cost: "route_cost (CreateDistanceEvaluator data) ?nodes = Inr (route_distance ?rep)"
    unfolding route_nodes_def route_report_def
    using route_cost_arcs [of ?idxs "CreateDistanceEvaluator data" "IndexToNode routing"
        "\<lambda>i j. GetArcCostForVehicle routing i j vehicle_id"] arcs
    by simp
  have empty: "route_distance ?rep = 0 \<and> route_load ?rep = 0"
    if e: "?nodes = [depot data, depot data]"
  proof -
    from e obtain e' where p: "paths ! vehicle_id = [e']"
      by (cases "paths ! vehicle_id") (auto simp add: route_nodes_def)
    from e p have n: "IndexToNode routing (Start routing vehicle_id) = 0"
      "IndexToNode routing e' = 0"
      by (simp_all add: route_nodes_def depot_def)
    from arcs [of "Start routing vehicle_id" e'] p n
    have "distance_evaluator (CreateDistanceEvaluator data) (int 0) (int 0) =
            Inr (GetArcCostForVehicle routing (Start routing vehicle_id) e' vehicle_id)"
      by simp
    then have "GetArcCostForVehicle routing (Start routing vehicle_id) e' vehicle_id = 0"
      by (rule distance_evaluator_diagonal)
    moreover from cumul e p depot have "CumulVar asg e' = 0"
      by (simp add: cumulative_load_at_def depot_def)
    ultimately show ?thesis by (simp add: route_report_def p)
  qed
  show ?thesis
    apply (rule exI [of _ ?out])
    using out cost empty unfolding nth by blast
qed

theorem print_solution_route_distance_witness:
  "follows tiny_routing tiny_assignment (Start tiny_routing 0) (tiny_paths ! 0)
   \<and> follows tiny_routing tiny_assignment (Start tiny_routing 1) (tiny_paths ! 1)
   \<and> (1::nat) < num_vehicles tiny
   \<and> distance_evaluator (CreateDistanceEvaluator tiny)
         (int (IndexToNode tiny_routing 3)) (int (IndexToNode tiny_routing 5)) =
       Inr (GetArcCostForVehicle tiny_routing 3 5 1)
   \<and> CumulVar tiny_assignment 5 = int (cumulative_load_at tiny [0, 0] 1)
   \<and> demand tiny (depot tiny) = 0
   \<and> route_nodes tiny_routing 1 (tiny_paths ! 1) = [depot tiny, depot tiny]
   \<and> (\<exists>out. print_solution tiny tiny_routing tiny_assignment = Some out
         \<and> route_cost (CreateDistanceEvaluator tiny) [0, 0] = Inr 0
         \<and> route_distance (printed_routes out ! 1) = 0
         \<and> route_load (printed_routes out ! 1) = 0)"
proof -
  have v: "(1::nat) < num_vehicles tiny" by (simp add: tiny_def)
  have p: "tiny_paths ! 1 = [5]" "tiny_paths ! Suc 0 = [5]" "Start tiny_routing 1 = 3"
    "Start tiny_routing (Suc 0) = 3"
    by (simp_all add: tiny_paths_def tiny_routing_def)
  have nodes: "route_nodes tiny_routing 1 (tiny_paths ! 1) = [depot tiny, depot tiny]"
    by (simp add: route_nodes_def p depot_def tiny_routing_simps)
  have d00: "distance_evaluator (CreateDistanceEvaluator tiny) 0 0 = Inr 0"
    using tiny_distance [of 0 0] by simp
  have arc: "distance_evaluator (CreateDistanceEvaluator tiny)
               (int (IndexToNode tiny_routing 3)) (int (IndexToNode tiny_routing 5)) =
             Inr (GetArcCostForVehicle tiny_routing 3 5 1)"
    by (simp add: tiny_routing_simps d00)
  have arcs: "\<And>i j. (i, j) \<in> set (legs (Start tiny_routing 1 # tiny_paths ! 1)) \<Longrightarrow>
                distance_evaluator (CreateDistanceEvaluator tiny)
                  (int (IndexToNode tiny_routing i)) (int (IndexToNode tiny_routing j)) =
                Inr (GetArcCostForVehicle tiny_routing i j 1)"
    using arc by (simp add: p)
  have c: "CumulVar tiny_assignment 5 = int (cumulative_load_at tiny [0, 0] 1)"
    by (simp add: tiny_assignment_def cumulative_load_at_def demand_def tiny_def)
  have cumul: "CumulVar tiny_assignment (last (Start tiny_routing 1 # tiny_paths ! 1)) =
               int (cumulative_load_at tiny (route_nodes tiny_routing 1 (tiny_paths ! 1))
                      (length (tiny_paths ! 1)))"
    unfolding nodes using c by (simp add: p depot_def)
  have d: "demand tiny (depot tiny) = 0"
    by (simp add: demand_def depot_def tiny_def)
  from print_solution_route_distance [of tiny tiny_routing tiny_assignment tiny_paths 1,
      OF tiny_follows v arcs cumul d]
  obtain out where out: "print_solution tiny tiny_routing tiny_assignment = Some out"
    "route_cost (CreateDistanceEvaluator tiny) (route_nodes tiny_routing 1 (tiny_paths ! 1)) =
       Inr (route_distance (printed_routes out ! 1))"
    "route_distance (printed_routes out ! 1) = 0" "route_load (printed_routes out ! 1) = 0"
    using nodes by blast
  have "route_cost (CreateDistanceEvaluator tiny) [0, 0] = Inr 0"
    by (simp add: d00)
  with out tiny_follows [of 0] tiny_follows [of 1] v arc c d nodes show ?thesis
    by (auto simp add: tiny_def)
qed

section \<open>Selection and the states of a construction\<close>

lemma better_asym: "better a b \<Longrightarrow> \<not> better b a"
  by (cases a; cases b) auto

lemma better_trans: "better a b \<Longrightarrow> better b c \<Longrightarrow> better a c"
  by (cases a; cases b; cases c) auto

lemma better_total: "a \<noteq> b \<Longrightarrow> better a b \<or> better b a"
  by (cases a; cases b) auto

lemma select_best_None: "select_best cs = None \<longleftrightarrow> cs = []"
  by (induction cs) (auto split: option.splits)

lemma select_best_least:
  "select_best cs = Some c \<Longrightarrow> c' \<in> set cs \<Longrightarrow> c' = c \<or> better c c'"
proof (induction cs arbitrary: c)
  case Nil
  then show ?case by simp
next
  case (Cons x xs)
  show ?case
  proof (cases "select_best xs")
    case None
    with Cons.prems show ?thesis by (simp add: select_best_None)
  next
    case (Some b)
    show ?thesis
    proof (cases "better b x")
      case True
      with Some Cons.prems have c: "c = b" by simp
      from Cons.prems(2) consider "c' = x" | "c' \<in> set xs" by auto
      then show ?thesis
      proof cases
        case 1
        with True c show ?thesis by simp
      next
        case 2
        from Cons.IH [OF Some 2] c show ?thesis by simp
      qed
    next
      case False
      with Some Cons.prems have c: "c = x" by simp
      from Cons.prems(2) consider "c' = x" | "c' \<in> set xs" by auto
      then show ?thesis
      proof cases
        case 1
        with c show ?thesis by simp
      next
        case 2
        from Cons.IH [OF Some 2] have "c' = b \<or> better b c'" .
        moreover from False have "x = b \<or> better x b"
          using better_total [of x b] by auto
        ultimately show ?thesis
          using c False by (auto intro: better_trans)
      qed
    qed
  qed
qed

lemma insertion_loop_invariant:
  assumes "P s"
    and "\<And>s c. P s \<Longrightarrow> unrouted s \<noteq> [] \<Longrightarrow>
           select_best (candidates data distances s) = Some c \<Longrightarrow> P (insert_point c s)"
    and "insertion_loop data distances s = Inr solution"
  shows "\<exists>s'. P s' \<and> unrouted s' = [] \<and> routes s' = solution"
  using assms
proof (induction data distances s rule: insertion_loop.induct)
  case (1 data distances s)
  note loop = insertion_loop.simps [of data distances s]
  show ?case
  proof (cases "unrouted s = []")
    case True
    with "1.prems"(1,3) loop show ?thesis by auto
  next
    case False
    show ?thesis
    proof (cases "select_best (candidates data distances s)")
      case None
      with False "1.prems"(3) loop show ?thesis by simp
    next
      case (Some c)
      with False "1.prems"(3) loop
      have "insertion_loop data distances (insert_point c s) = Inr solution"
        by simp
      moreover have "P (insert_point c s)"
        using "1.prems"(1) False Some by (rule "1.prems"(2))
      ultimately show ?thesis
        using "1.IH" [OF False Some] "1.prems"(2) by blast
    qed
  qed
qed

lemma reached_valid: "reached data s \<Longrightarrow> \<not> invalid_instance data"
  by (induction rule: reached.induct) auto


lemma construct_reached:
  assumes "construct data = Inr solution"
  shows "\<exists>s. reached data s \<and> unrouted s = [] \<and> routes s = solution"
proof -
  from assms have valid: "\<not> invalid_instance data"
    and loop: "insertion_loop data (CreateDistanceEvaluator data) (initial_state data) =
                 Inr solution"
    by (auto simp add: construct_def split: if_splits)
  have init: "reached data (initial_state data)"
    using valid by (rule reached.start)
  show ?thesis
    using init _ loop
  proof (rule insertion_loop_invariant [where P = "reached data"])
    fix s c
    assume "reached data s" "unrouted s \<noteq> []"
      "select_best (candidates data (CreateDistanceEvaluator data) s) = Some c"
    then show "reached data (insert_point c s)" by (rule reached.step)
  qed
qed

section \<open>Errors of the route constructor\<close>

lemma oracle_distance_in_range:
  "i < num_locations data \<Longrightarrow> j < num_locations data \<Longrightarrow>
   oracle_distance (CreateDistanceEvaluator data) i j =
     (if i = j then 0 else manhattan_distance (locations data ! i) (locations data ! j))"
  by (simp add: oracle_distance_def distance_evaluator_in_range)

lemma insertion_loop_not_invalid:
  "insertion_loop data distances s \<noteq> Inl InvalidInstance"
proof (induction data distances s rule: insertion_loop.induct)
  case (1 data distances s)
  show ?case
  proof (cases "unrouted s = []")
    case True
    then show ?thesis by (simp add: insertion_loop.simps [of data distances s])
  next
    case False
    then show ?thesis
      using "1.IH"
      by (cases "select_best (candidates data distances s)")
         (simp_all add: insertion_loop.simps [of data distances s])
  qed
qed

text \<open>
  C4. On an instance with a point whose demand exceeds the vehicle capacity the
  constructor returns InvalidInstance. It does so at entry: no construction state is
  ever reached on such an instance, so no insertion is attempted. The insertion loop
  never returns InvalidInstance, so the error is distinct from an infeasibility met in
  mid-construction.
\<close>

theorem construct_invalid_instance:
  assumes "p < length (demands data)" and "capacity data < demands data ! p"
  shows "construct data = Inl InvalidInstance
         \<and> \<not> reached data s
         \<and> insertion_loop data distances s' \<noteq> Inl InvalidInstance"
proof -
  from assms have "list_ex (\<lambda>d. capacity data < d) (demands data)"
    by (auto simp add: list_ex_iff)
  then have inv: "invalid_instance data" by (simp add: invalid_instance_def)
  then have "construct data = Inl InvalidInstance" by (simp add: construct_def)
  moreover from inv have "\<not> reached data s" by (auto dest: reached_valid)
  ultimately show ?thesis by (simp add: insertion_loop_not_invalid)
qed

theorem construct_invalid_instance_witness:
  "(1::nat) < length (demands oversized)
   \<and> capacity oversized < demands oversized ! 1
   \<and> construct oversized = Inl InvalidInstance
   \<and> \<not> reached oversized (initial_state oversized)
   \<and> insertion_loop oversized (CreateDistanceEvaluator oversized) (initial_state oversized)
       \<noteq> Inl InvalidInstance"
proof -
  have h: "(1::nat) < length (demands oversized)"
    "capacity oversized < demands oversized ! 1"
    by (simp_all add: oversized_def)
  from construct_invalid_instance [OF h] h show ?thesis by simp
qed

section \<open>Every point is routed once\<close>

lemma visits_empty_routes: "visits (replicate n [0, 0]) = []"
  by (induction n) (simp_all add: visits_def)

lemma mset_concat_update:
  "r < length rs \<Longrightarrow>
   mset (concat (rs[r := x])) + mset (rs ! r) = mset (concat rs) + mset x"
proof (induction rs arbitrary: r)
  case Nil
  then show ?case by simp
next
  case (Cons a rs)
  then show ?case by (cases r) auto
qed

lemma mset_insert_at: "mset (insert_at route i p) = add_mset p (mset route)"
proof -
  have "mset (take (Suc i) route) + mset (drop (Suc i) route) = mset route"
    by (metis append_take_drop_id mset_append)
  then show ?thesis
    by (simp add: insert_at_def)
qed

lemma mset_visits_insert:
  assumes "r < length rs" and "p \<noteq> 0"
  shows "mset (visits (rs[r := insert_at (rs ! r) i p])) = add_mset p (mset (visits rs))"
proof -
  let ?P = "\<lambda>q::nat. q \<noteq> 0"
  from mset_concat_update [OF assms(1), of "insert_at (rs ! r) i p"]
  have "filter_mset ?P (mset (concat (rs[r := insert_at (rs ! r) i p])) + mset (rs ! r)) =
        filter_mset ?P (mset (concat rs) + mset (insert_at (rs ! r) i p))"
    by simp
  then show ?thesis
    using assms(2) by (simp add: visits_def mset_insert_at)
qed

lemma candidates_bounds:
  assumes "(cost, p, r, i) \<in> set (candidates data distances s)"
  shows "p \<in> set (unrouted s)" and "r < length (routes s)"
    and "i < length (routes s ! r) - 1" and "feasible_insertion data (routes s ! r) i p"
  using assms by (auto simp add: candidates_def)

lemma routing_invariant_initial: "routing_invariant data (initial_state data)"
  by (simp add: routing_invariant_def initial_state_def depot_def visits_empty_routes)

lemma routing_invariant_step:
  assumes inv: "routing_invariant data s"
    and sel: "select_best (candidates data distances s) = Some c"
  shows "routing_invariant data (insert_point c s)"
proof -
  obtain cost p r i where c: "c = (cost, p, r, i)" by (cases c) auto
  from select_best_mem [OF sel] c
  have mem: "(cost, p, r, i) \<in> set (candidates data distances s)" by simp
  note b = candidates_bounds [OF mem]
  from inv have d: "distinct (unrouted s)"
    and m: "mset (unrouted s) + mset (visits (routes s)) = mset [1..<num_locations data]"
    and l: "length (routes s) = num_vehicles data"
    by (simp_all add: routing_invariant_def)
  from b(1) have "p \<in># mset (unrouted s) + mset (visits (routes s))" by simp
  with m have "p \<in> set [1..<num_locations data]" by (metis set_mset_mset)
  then have p0: "p \<noteq> 0" by simp
  from d have rm: "removeAll p (unrouted s) = remove1 p (unrouted s)"
    by (simp add: distinct_remove1_removeAll)
  have "mset (remove1 p (unrouted s))
          + mset (visits ((routes s)[r := insert_at (routes s ! r) i p]))
        = mset (unrouted s) + mset (visits (routes s))"
    using b(1) by (simp add: mset_visits_insert [OF b(2) p0])
  with d m l show ?thesis
    by (simp add: routing_invariant_def c rm)
qed

lemma reached_routing_invariant: "reached data s \<Longrightarrow> routing_invariant data s"
  by (induction rule: reached.induct)
     (auto intro: routing_invariant_initial routing_invariant_step)

text \<open>
  C1. When the construction succeeds, the non-depot stops of all routes taken together
  are pairwise distinct and are exactly the point indices \<open>1..N-1\<close>: no point is visited
  twice, in one route or in two, and none is left out. There is one route per vehicle.
\<close>

theorem construct_visits_every_point_once:
  assumes "construct data = Inr solution"
  shows "distinct (visits solution)
         \<and> set (visits solution) = {1..<num_locations data}
         \<and> length solution = num_vehicles data"
proof -
  from construct_reached [OF assms] obtain s
    where s: "reached data s" "unrouted s = []" "routes s = solution" by blast
  from reached_routing_invariant [OF s(1)] s(2,3)
  have m: "mset (visits solution) = mset [1..<num_locations data]"
    and l: "length solution = num_vehicles data"
    by (simp_all add: routing_invariant_def)
  from m have "distinct (visits solution) \<longleftrightarrow> distinct [1..<num_locations data]"
    by (rule mset_eq_imp_distinct_iff)
  moreover from m have "set (visits solution) = set [1..<num_locations data]"
    by (rule mset_eq_setD)
  ultimately show ?thesis using l by simp
qed

lemma construct_scenario: "construct scenario = Inr [[0, 4, 3, 2, 1, 0], [0, 0]]"
  by code_simp

text \<open>
  With more vehicles than points to visit, the vehicles left over keep the empty route
  from the depot to the depot.
\<close>

lemma construct_spare_vehicles:
  "construct \<lparr> locations = [(0, 0), (1, 0)], demands = [0, 1], capacity = 5,
               num_vehicles = 3 \<rparr> = Inr [[0, 1, 0], [0, 0], [0, 0]]"
  by code_simp

theorem construct_visits_every_point_once_witness:
  "construct scenario = Inr [[0, 4, 3, 2, 1, 0], [0, 0]]
   \<and> visits [[0, 4, 3, 2, 1, 0], [0, 0]] = [4, 3, 2, 1]
   \<and> distinct (visits [[0, 4, 3, 2, 1, 0], [0, 0]])
   \<and> set (visits [[0, 4, 3, 2, 1, 0], [0, 0]]) = {1..<num_locations scenario}
   \<and> length [[0, 4, 3, 2, 1, 0], [0, 0 :: nat]] = num_vehicles scenario"
proof -
  have "visits [[0, 4, 3, 2, 1, 0], [0, 0]] = [4, 3, 2, 1]"
    by (simp add: visits_def)
  with construct_visits_every_point_once [OF construct_scenario] construct_scenario
  show ?thesis by simp
qed

section \<open>Constructions that cannot go on\<close>



















section \<open>The capacity test at an insertion\<close>









section \<open>Determinism of the construction\<close>

lemma select_best_selected: "select_best cs = Some c \<Longrightarrow> selected cs c"
  unfolding selected_def by (blast dest: select_best_mem select_best_least)

lemma selected_unique:
  assumes "selected cs c1" and "selected cs c2"
  shows "c1 = c2"
proof (rule ccontr)
  assume "c1 \<noteq> c2"
  with assms have "better c1 c2" "better c2 c1"
    by (auto simp add: selected_def)
  then show False by (auto dest: better_asym)
qed

lemma selected_select_best:
  assumes "selected cs c"
  shows "select_best cs = Some c"
proof (cases "select_best cs")
  case None
  with assms show ?thesis by (simp add: select_best_None selected_def)
next
  case (Some b)
  then have "selected cs b" by (rule select_best_selected)
  with assms have "b = c" by (rule selected_unique [rotated])
  with Some show ?thesis by simp
qed

lemma run_insertion_loop:
  "run data s result \<Longrightarrow> result = insertion_loop data (CreateDistanceEvaluator data) s"
proof (induction rule: run.induct)
  case (finished s)
  then show ?case by (simp add: insertion_loop.simps [of data _ s])
next
  case (infeasible s)
  then show ?case by (simp add: insertion_loop.simps [of data _ s])
next
  case (insertion s c result)
  from insertion.hyps(2) have "select_best (candidates data (CreateDistanceEvaluator data) s) = Some c"
    by (rule selected_select_best)
  with insertion show ?case by (simp add: insertion_loop.simps [of data _ s])
qed

lemma insertion_loop_run:
  "distances = CreateDistanceEvaluator data \<Longrightarrow>
   run data s (insertion_loop data distances s)"
proof (induction data distances s rule: insertion_loop.induct)
  case (1 data distances s)
  note loop = insertion_loop.simps [of data distances s]
  note d = "1.prems"
  show ?case
  proof (cases "unrouted s = []")
    case True
    then show ?thesis by (simp add: loop run.finished)
  next
    case False
    show ?thesis
    proof (cases "select_best (candidates data distances s)")
      case None
      then have "set (candidates data (CreateDistanceEvaluator data) s) = {}"
        by (simp add: select_best_None d)
      with False have "run data s (Inl (ConstructionInfeasible (unrouted s)))"
        by (rule run.infeasible)
      with False None show ?thesis by (simp add: loop)
    next
      case (Some c)
      then have "selected (candidates data (CreateDistanceEvaluator data) s) c"
        by (simp add: select_best_selected d)
      moreover from "1.IH" [OF False Some d]
      have "run data (insert_point c s) (insertion_loop data distances (insert_point c s))" .
      ultimately have "run data s (insertion_loop data distances (insert_point c s))"
        using False by (auto intro: run.insertion)
      with False Some show ?thesis by (simp add: loop)
    qed
  qed
qed

lemma construct_constructs: "constructs data (construct data)"
  by (simp add: constructs_def construct_def insertion_loop_run)

text \<open>
  C8. The tie-break rule leaves no choice: at most one candidate is selected in a state,
  so any two runs of the constructor on the same instance return the same result, down
  to the order of the stops in every route, and that result is the value of the function
  \<open>construct\<close>.
\<close>

theorem construction_deterministic:
  assumes "constructs data result1" and "constructs data result2"
  shows "result1 = result2 \<and> result1 = construct data"
proof -
  have "result = construct data" if "constructs data result" for result
    using that
    by (auto simp add: constructs_def construct_def split: if_splits dest: run_insertion_loop)
  from this [OF assms(1)] this [OF assms(2)] show ?thesis by simp
qed

theorem construction_deterministic_witness:
  "constructs scenario (Inr [[0, 4, 3, 2, 1, 0], [0, 0]])
   \<and> constructs scenario (construct scenario)
   \<and> Inr [[0, 4, 3, 2, 1, 0], [0, 0]] = construct scenario"
proof -
  have a: "constructs scenario (Inr [[0, 4, 3, 2, 1, 0], [0, 0]])"
    using construct_constructs [of scenario] by (simp add: construct_scenario)
  from construction_deterministic [OF a construct_constructs] a construct_constructs
  show ?thesis by simp
qed

end
